theory Spec2Isabelle
  imports Complex_Main "HOL-Library.Word"
begin

section \<open>Data model of the monitor\<close>

text \<open>
  Instants of \<^verbatim>\<open>time.Time\<close> are integers (nanoseconds on the clock that \<^verbatim>\<open>time.Now\<close>
  reads); \<^verbatim>\<open>Before\<close>, \<^verbatim>\<open>After\<close> and \<^verbatim>\<open>Equal\<close> are \<open><\<close>, \<open>>\<close> and \<open>=\<close>.
  Go's \<^verbatim>\<open>int\<close> and \<^verbatim>\<open>time.Duration\<close> are 64-bit two's complement words, read with
  \<open>sint\<close>. Prices are \<^verbatim>\<open>float64\<close> in the source; here they are real numbers, so
  rounding, infinities and NaN are not represented.
\<close>

type_synonym time = int

datatype error = Error string

text \<open>Events and responses of package \<^verbatim>\<open>mexc\<close>; numeric fields arrive as text.\<close>

record TradeData =
  Symbol :: string
  Price :: string
  Quantity :: string
  Timestamp :: "64 word"
  IsBuyer :: bool

record TickerResponse =
  Symbol :: string
  Price :: string

record TradeResponse =
  Symbol :: string
  Price :: string
  Qty :: string
  Time :: "64 word"
  IsBuyerMaker :: bool

text \<open>The state of package \<^verbatim>\<open>monitor\<close>.\<close>

record PriceData =
  Price :: real
  Timestamp :: time

record VolumeData =
  Volume :: "64 word"
  Timestamp :: time

record Settings =
  TimeInterval :: "64 word"
  PriceChange :: real
  MinVolume :: "64 word"

record Monitor =
  priceHistory :: "string \<rightharpoonup> PriceData list"
  volumeData :: "string \<rightharpoonup> VolumeData"

text \<open>The arguments of one call of \<^verbatim>\<open>bot.SendAlert\<close>.\<close>

record AlertCall =
  alertSymbol :: string
  alertChange :: real
  alertVolume :: "64 word"
  alertTime :: time

text \<open>
  The collaborators of \<^verbatim>\<open>analyzeData\<close>: the settings and blacklist queries of the
  database and the bot's \<^verbatim>\<open>SendAlert\<close> (\<open>None\<close> is Go's \<^verbatim>\<open>nil\<close> error).
\<close>

record Deps =
  GetSettings :: "error + Settings"
  IsBlacklisted :: "string \<Rightarrow> error + bool"
  SendAlert :: "string \<Rightarrow> real \<Rightarrow> 64 word \<Rightarrow> time \<Rightarrow> error option"

type_synonym trace = "(AlertCall \<times> error option) list"

section \<open>The analysis pass\<close>

text \<open>Slice indexing panics outside \<open>0 \<le> i < len\<close>.\<close>

definition index :: "'a list \<Rightarrow> int \<Rightarrow> error + 'a" where
  "index xs i =
     (if 0 \<le> i \<and> i < int (length xs) then Inr (xs ! nat i)
      else Inl (Error ''index out of range''))"

text \<open>\<^verbatim>\<open>now.Add(-time.Duration(settings.TimeInterval) * time.Second)\<close>: the duration
  wraps around in 64 bits.\<close>

definition cutoffTimeOf :: "time \<Rightarrow> 64 word \<Rightarrow> time" where
  "cutoffTimeOf now ti = now + sint (- ti * 1000000000)"

text \<open>The backward scan \<^verbatim>\<open>for i := len(history) - 1; i >= 0; i--\<close>.\<close>

function scanBack :: "PriceData list \<Rightarrow> time \<Rightarrow> int \<Rightarrow> error + real option" where
  "scanBack history targetTime i =
     (if i \<ge> 0 then
        (case index history i of
           Inl e \<Rightarrow> Inl e
         | Inr p \<Rightarrow>
             if PriceData.Timestamp p < targetTime \<or> PriceData.Timestamp p = targetTime
             then Inr (Some (PriceData.Price p))
             else scanBack history targetTime (i - 1))
      else Inr None)"
  by pat_completeness auto
termination
  by (relation "measure (\<lambda>(h, t, i). nat (i + 1))") auto

declare scanBack.simps [simp del]

definition startPrice :: "PriceData list \<Rightarrow> time \<Rightarrow> error + real" where
  "startPrice history targetTime =
     (case scanBack history targetTime (int (length history) - 1) of
        Inl e \<Rightarrow> Inl e
      | Inr (Some p) \<Rightarrow> Inr p
      | Inr None \<Rightarrow>
          if length history > 0
          then (case index history 0 of Inl e \<Rightarrow> Inl e | Inr p \<Rightarrow> Inr (PriceData.Price p))
          else Inr 0)"

text \<open>
  A float division by zero does not panic in Go (it yields an infinity or NaN); the
  model makes it a distinguished outcome, so that never reaching it is a theorem.
\<close>

definition fdiv :: "real \<Rightarrow> real \<Rightarrow> error + real" where
  "fdiv a b = (if b = 0 then Inl (Error ''division by zero'') else Inr (a / b))"

definition priceChangeOf :: "real \<Rightarrow> real \<Rightarrow> error + real" where
  "priceChangeOf currentPrice sp =
     (if sp > 0 then
        (case fdiv (currentPrice - sp) sp of
           Inl e \<Rightarrow> Inl e
         | Inr q \<Rightarrow> Inr (q * 100))
      else Inr 0)"

text \<open>The body of the loop over \<^verbatim>\<open>m.priceHistory\<close>, for one symbol.\<close>

definition analyzeSymbol ::
  "Deps \<Rightarrow> Settings \<Rightarrow> time \<Rightarrow> string \<Rightarrow> Monitor \<times> trace \<Rightarrow> error + Monitor \<times> trace" where
  "analyzeSymbol d settings now symb st =
     (let m = fst st; out = snd st;
          cutoffTime = cutoffTimeOf now (TimeInterval settings) in
      case priceHistory m symb of
        None \<Rightarrow> Inr st
      | Some history \<Rightarrow>
          if length history = 0 then Inr st
          else
            (case index history (int (length history) - 1) of
               Inl e \<Rightarrow> Inl e
             | Inr cur \<Rightarrow>
                 if PriceData.Timestamp cur < cutoffTime then Inr st
                 else
                   (case IsBlacklisted d symb of
                      Inl e \<Rightarrow> Inr st
                    | Inr True \<Rightarrow> Inr st
                    | Inr False \<Rightarrow>
                        (case volumeData m symb of
                           None \<Rightarrow> Inr st
                         | Some volData \<Rightarrow>
                             if VolumeData.Timestamp volData < cutoffTime then Inr st
                             else
                               (case startPrice history
                                       (cutoffTimeOf now (TimeInterval settings)) of
                                  Inl e \<Rightarrow> Inl e
                                | Inr sp \<Rightarrow>
                                    (case priceChangeOf (PriceData.Price cur) sp of
                                       Inl e \<Rightarrow> Inl e
                                     | Inr pc \<Rightarrow>
                                         if sint (Volume volData) \<ge> sint (MinVolume settings) \<and>
                                            (pc \<ge> PriceChange settings \<or> pc \<le> - PriceChange settings)
                                         then
                                           Inr (m\<lparr>volumeData := (volumeData m)(symb := None)\<rparr>,
                                                out @ [(\<lparr>alertSymbol = symb, alertChange = pc,
                                                         alertVolume = Volume volData,
                                                         alertTime = now\<rparr>,
                                                        SendAlert d symb pc (Volume volData) now)])
                                         else Inr st))))))"

text \<open>
  \<^verbatim>\<open>for symbol, history := range m.priceHistory\<close>: Go visits every key once, in an
  unspecified order; \<open>keys\<close> is that order.
\<close>

fun analyzeLoop ::
  "Deps \<Rightarrow> Settings \<Rightarrow> time \<Rightarrow> string list \<Rightarrow> Monitor \<times> trace \<Rightarrow> error + Monitor \<times> trace" where
  "analyzeLoop d settings now [] st = Inr st"
| "analyzeLoop d settings now (k # ks) st =
     (case analyzeSymbol d settings now k st of
        Inl e \<Rightarrow> Inl e
      | Inr st' \<Rightarrow> analyzeLoop d settings now ks st')"

definition analyzeData :: "Deps \<Rightarrow> time \<Rightarrow> string list \<Rightarrow> Monitor \<Rightarrow> error + Monitor \<times> trace" where
  "analyzeData d now keys m =
     (case GetSettings d of
        Inl e \<Rightarrow> Inr (m, [])
      | Inr settings \<Rightarrow> analyzeLoop d settings now keys (m, []))"

section \<open>The pruning pass\<close>

text \<open>The inner loop of \<^verbatim>\<open>cleanup\<close>: samples \<^verbatim>\<open>After(cutoffTime)\<close> are appended to
  \<^verbatim>\<open>newHistory\<close>, which starts as the nil slice.\<close>

definition pruneHistory :: "time \<Rightarrow> PriceData list \<Rightarrow> PriceData list" where
  "pruneHistory cutoffTime history =
     foldl (\<lambda>newHistory priceData.
              if PriceData.Timestamp priceData > cutoffTime then newHistory @ [priceData]
              else newHistory) [] history"

fun cleanupPrices :: "time \<Rightarrow> string list \<Rightarrow> Monitor \<Rightarrow> Monitor" where
  "cleanupPrices cutoffTime [] m = m"
| "cleanupPrices cutoffTime (k # ks) m =
     cleanupPrices cutoffTime ks
       (case priceHistory m k of
          None \<Rightarrow> m
        | Some history \<Rightarrow>
            m\<lparr>priceHistory := (priceHistory m)(k \<mapsto> pruneHistory cutoffTime history)\<rparr>)"

fun cleanupVolumes :: "time \<Rightarrow> string list \<Rightarrow> Monitor \<Rightarrow> Monitor" where
  "cleanupVolumes cutoffTime [] m = m"
| "cleanupVolumes cutoffTime (k # ks) m =
     cleanupVolumes cutoffTime ks
       (case volumeData m k of
          None \<Rightarrow> m
        | Some volData \<Rightarrow>
            if VolumeData.Timestamp volData < cutoffTime
            then m\<lparr>volumeData := (volumeData m)(k := None)\<rparr>
            else m)"

text \<open>
  \<^verbatim>\<open>cleanup\<close> with the clock reading \<open>now\<close>; \<open>pkeys\<close> and \<open>vkeys\<close> are the orders in
  which the two \<^verbatim>\<open>range\<close> loops visit the keys of the two maps. The cutoff is
  \<^verbatim>\<open>now.Add(-10 * time.Minute)\<close>. The call of \<^verbatim>\<open>CleanupExpiredBlacklist\<close> acts on the
  database only and its error is logged.
\<close>

definition cleanup :: "time \<Rightarrow> string list \<Rightarrow> string list \<Rightarrow> Monitor \<Rightarrow> Monitor" where
  "cleanup now pkeys vkeys m =
     (let cutoffTime = now + (- 10 * 60000000000)
      in cleanupVolumes cutoffTime vkeys (cleanupPrices cutoffTime pkeys m))"

section \<open>Ingestion: the trade handler and the polling path\<close>

text \<open>\<^verbatim>\<open>int(x)\<close> of a float truncates towards zero; a value outside 64 bits, which Go
  leaves to the implementation, wraps here.\<close>

definition toInt :: "real \<Rightarrow> 64 word" where
  "toInt x = word_of_int (if x \<ge> 0 then \<lfloor>x\<rfloor> else \<lceil>x\<rceil>)"

text \<open>\<open>pf\<close> is \<^verbatim>\<open>strconv.ParseFloat\<close> (\<open>None\<close> when it returns an error).\<close>

definition handleTrade ::
  "(string \<Rightarrow> real option) \<Rightarrow> time \<Rightarrow> TradeData \<Rightarrow> Monitor \<Rightarrow> Monitor" where
  "handleTrade pf now trade m =
     (case pf (TradeData.Price trade) of
        None \<Rightarrow> m
      | Some price \<Rightarrow>
          (case pf (Quantity trade) of
             None \<Rightarrow> m
           | Some quantity \<Rightarrow>
               (let volumeUSD = toInt (price * quantity) in
                case volumeData m (TradeData.Symbol trade) of
                  Some volData \<Rightarrow>
                    m\<lparr>volumeData := (volumeData m)(TradeData.Symbol trade \<mapsto>
                         volData\<lparr>Volume := Volume volData + volumeUSD,
                                 VolumeData.Timestamp := now\<rparr>)\<rparr>
                | None \<Rightarrow>
                    m\<lparr>volumeData := (volumeData m)(TradeData.Symbol trade \<mapsto>
                         \<lparr>Volume = volumeUSD, Timestamp = now\<rparr>)\<rparr>)))"

text \<open>The client's dispatch of one frame of trades to the handler, trade by trade.\<close>

fun handleTrades ::
  "(string \<Rightarrow> real option) \<Rightarrow> time \<Rightarrow> TradeData list \<Rightarrow> Monitor \<Rightarrow> Monitor" where
  "handleTrades pf now [] m = m"
| "handleTrades pf now (trade # trades) m = handleTrades pf now trades (handleTrade pf now trade m)"

record RESTClient =
  GetAllTickers :: "error + TickerResponse list"
  GetRecentTrades :: "string \<Rightarrow> error + TradeResponse list"

fun pollTickers ::
  "(string \<Rightarrow> real option) \<Rightarrow> time \<Rightarrow> string list \<Rightarrow> TickerResponse list \<Rightarrow> Monitor \<Rightarrow> Monitor" where
  "pollTickers pf now symbols [] m = m"
| "pollTickers pf now symbols (ticker # tickers) m =
     (if TickerResponse.Symbol ticker \<notin> set symbols then pollTickers pf now symbols tickers m
      else
        (case pf (TickerResponse.Price ticker) of
           None \<Rightarrow> pollTickers pf now symbols tickers m
         | Some price \<Rightarrow>
             (let priceData = \<lparr>PriceData.Price = price, PriceData.Timestamp = now\<rparr> in
              pollTickers pf now symbols tickers
                (m\<lparr>priceHistory := (priceHistory m)(TickerResponse.Symbol ticker \<mapsto>
                     (case priceHistory m (TickerResponse.Symbol ticker) of
                        Some history \<Rightarrow> history @ [priceData]
                      | None \<Rightarrow> [priceData]))\<rparr>))))"

text \<open>\<^verbatim>\<open>totalVolume\<close> of the inner loop over the fetched trades.\<close>

definition totalVolume :: "(string \<Rightarrow> real option) \<Rightarrow> TradeResponse list \<Rightarrow> 64 word" where
  "totalVolume pf trades =
     foldl (\<lambda>total trade.
              case pf (TradeResponse.Price trade) of
                None \<Rightarrow> total
              | Some price \<Rightarrow>
                  (case pf (Qty trade) of
                     None \<Rightarrow> total
                   | Some qty \<Rightarrow> total + toInt (price * qty))) 0 trades"

fun pollVolumes ::
  "RESTClient \<Rightarrow> (string \<Rightarrow> real option) \<Rightarrow> time \<Rightarrow> string list \<Rightarrow> Monitor \<Rightarrow> Monitor" where
  "pollVolumes rest pf now [] m = m"
| "pollVolumes rest pf now (symbol # symbols) m =
     (case GetRecentTrades rest symbol of
        Inl e \<Rightarrow> pollVolumes rest pf now symbols m
      | Inr trades \<Rightarrow>
          pollVolumes rest pf now symbols
            (m\<lparr>volumeData := (volumeData m)(symbol \<mapsto>
                 \<lparr>Volume = totalVolume pf trades, Timestamp = now\<rparr>)\<rparr>))"

definition pollPrices ::
  "RESTClient \<Rightarrow> (string \<Rightarrow> real option) \<Rightarrow> time \<Rightarrow> string list \<Rightarrow> Monitor \<Rightarrow> Monitor" where
  "pollPrices rest pf now symbols m =
     (case GetAllTickers rest of
        Inl e \<Rightarrow> m
      | Inr tickers \<Rightarrow> pollVolumes rest pf now symbols (pollTickers pf now symbols tickers m))"

text \<open>A fetched trade as the event that the stream would deliver for \<open>symbol\<close>.\<close>

definition asTradeData :: "string \<Rightarrow> TradeResponse \<Rightarrow> TradeData" where
  "asTradeData symbol r =
     \<lparr>TradeData.Symbol = symbol, TradeData.Price = TradeResponse.Price r, Quantity = Qty r,
      TradeData.Timestamp = Time r, IsBuyer = IsBuyerMaker r\<rparr>"

section \<open>The streaming client's read loop\<close>

text \<open>
  The client's connection handle is \<open>conn\<close> (\<open>None\<close> is \<^verbatim>\<open>nil\<close>); \<open>ctxDone\<close> says
  whether \<^verbatim>\<open>Disconnect\<close> has cancelled the context. The network is given by the
  outcomes of the successive calls of \<^verbatim>\<open>Dial\<close> and of \<^verbatim>\<open>ReadMessage\<close>; \<open>dials\<close> and
  \<open>reads\<close> count the calls made so far, and \<open>events\<close> records what one goroutine
  running \<^verbatim>\<open>readMessages\<close> does, sleeps in seconds.
\<close>

datatype event =
  MessageHandled | ReadFailed | ConnClosed | Slept nat | Dialed bool | ReaderStarted

record Client =
  conn :: "nat option"
  ctxDone :: bool
  dials :: nat
  reads :: nat
  events :: "event list"

record Network =
  dialOk :: "nat \<Rightarrow> bool"
  readOk :: "nat \<Rightarrow> bool"

text \<open>\<^verbatim>\<open>Connect\<close>: nothing to do when a connection exists; a successful dial stores the
  connection and starts a further \<^verbatim>\<open>readMessages\<close> goroutine.\<close>

definition Connect :: "Network \<Rightarrow> Client \<Rightarrow> error option \<times> Client" where
  "Connect net c =
     (if conn c \<noteq> None then (None, c)
      else
        (let ok = dialOk net (dials c);
             c1 = c\<lparr>dials := dials c + 1, events := events c @ [Dialed ok]\<rparr>
         in if \<not> ok then (Some (Error ''failed to connect to WebSocket''), c1)
            else (None, c1\<lparr>conn := Some (dials c), events := events c1 @ [ReaderStarted]\<rparr>)))"

definition reconnect :: "Network \<Rightarrow> Client \<Rightarrow> error option \<times> Client" where
  "reconnect net c =
     (let c1 = (if conn c \<noteq> None then c\<lparr>conn := None, events := events c @ [ConnClosed]\<rparr>
                else c);
          c2 = c1\<lparr>events := events c1 @ [Slept 2]\<rparr>
      in Connect net c2)"

datatype outcome = Returned Client | Running Client

text \<open>
  \<^verbatim>\<open>readMessages\<close>, one equation per iteration of its \<^verbatim>\<open>for\<close> loop; the first argument
  bounds the number of iterations observed, and \<open>Running\<close> is a loop that has not
  returned within them.
\<close>

fun readMessages :: "nat \<Rightarrow> Network \<Rightarrow> Client \<Rightarrow> outcome" where
  "readMessages 0 net c = Running c"
| "readMessages (Suc n) net c =
     (if ctxDone c then Returned c
      else
        (case conn c of
           None \<Rightarrow> Returned c
         | Some k \<Rightarrow>
             if readOk net (reads c)
             then readMessages n net (c\<lparr>reads := reads c + 1, events := events c @ [MessageHandled]\<rparr>)
             else
               (case reconnect net (c\<lparr>reads := reads c + 1, events := events c @ [ReadFailed]\<rparr>) of
                  (Some e, c') \<Rightarrow> readMessages n net (c'\<lparr>events := events c' @ [Slept 5]\<rparr>)
                | (None, c') \<Rightarrow> readMessages n net c')))"

section \<open>Derived notions used in the statements\<close>

text \<open>The start price as a search: the latest sample at or before the target time,
  else the oldest sample.\<close>

definition startOf :: "PriceData list \<Rightarrow> time \<Rightarrow> real" where
  "startOf history targetTime =
     (case find (\<lambda>p. PriceData.Timestamp p \<le> targetTime) (rev history) of
        Some p \<Rightarrow> PriceData.Price p
      | None \<Rightarrow> if history = [] then 0 else PriceData.Price (hd history))"

definition percentOf :: "real \<Rightarrow> real \<Rightarrow> real" where
  "percentOf currentPrice sp = (if 0 < sp then (currentPrice - sp) / sp * 100 else 0)"

definition changeAt :: "Settings \<Rightarrow> time \<Rightarrow> PriceData list \<Rightarrow> real" where
  "changeAt settings now history =
     percentOf (PriceData.Price (last history))
       (startOf history (cutoffTimeOf now (TimeInterval settings)))"

text \<open>The condition under which the loop body alerts for a symbol in store \<open>m\<close>.\<close>

definition fires :: "Deps \<Rightarrow> Settings \<Rightarrow> time \<Rightarrow> Monitor \<Rightarrow> string \<Rightarrow> bool" where
  "fires d settings now m symb =
     (case priceHistory m symb of
        None \<Rightarrow> False
      | Some history \<Rightarrow>
          history \<noteq> [] \<and>
          cutoffTimeOf now (TimeInterval settings) \<le> PriceData.Timestamp (last history) \<and>
          IsBlacklisted d symb = Inr False \<and>
          (case volumeData m symb of
             None \<Rightarrow> False
           | Some volData \<Rightarrow>
               cutoffTimeOf now (TimeInterval settings) \<le> VolumeData.Timestamp volData \<and>
               sint (MinVolume settings) \<le> sint (Volume volData) \<and>
               (PriceChange settings \<le> changeAt settings now history \<or>
                changeAt settings now history \<le> - PriceChange settings)))"

definition callOf ::
  "Deps \<Rightarrow> Settings \<Rightarrow> time \<Rightarrow> Monitor \<Rightarrow> string \<Rightarrow> AlertCall \<times> error option" where
  "callOf d settings now m symb =
     (let pc = changeAt settings now (the (priceHistory m symb));
          vol = Volume (the (volumeData m symb))
      in (\<lparr>alertSymbol = symb, alertChange = pc, alertVolume = vol, alertTime = now\<rparr>,
          SendAlert d symb pc vol now))"

text \<open>The symbols for which a pass called \<^verbatim>\<open>SendAlert\<close>.\<close>

definition alerted :: "trace \<Rightarrow> string set" where
  "alerted out = set (map (\<lambda>c. alertSymbol (fst c)) out)"

text \<open>What the second loop of \<^verbatim>\<open>cleanup\<close> does to one entry of \<^verbatim>\<open>volumeData\<close>.\<close>

definition pruneVolume :: "time \<Rightarrow> VolumeData option \<Rightarrow> VolumeData option" where
  "pruneVolume c v =
     (case v of None \<Rightarrow> None
      | Some volData \<Rightarrow> if VolumeData.Timestamp volData < c then None else Some volData)"

text \<open>The amount that one fetched trade adds to \<^verbatim>\<open>totalVolume\<close>, and whether both of its
  numeric fields parse.\<close>

definition notional :: "(string \<Rightarrow> real option) \<Rightarrow> TradeResponse \<Rightarrow> 64 word" where
  "notional pf trade =
     (case pf (TradeResponse.Price trade) of
        None \<Rightarrow> 0
      | Some price \<Rightarrow> (case pf (Qty trade) of None \<Rightarrow> 0 | Some qty \<Rightarrow> toInt (price * qty)))"

definition parses :: "(string \<Rightarrow> real option) \<Rightarrow> TradeResponse \<Rightarrow> bool" where
  "parses pf r \<longleftrightarrow> pf (TradeResponse.Price r) \<noteq> None \<and> pf (Qty r) \<noteq> None"

section \<open>Example inputs\<close>

text \<open>The scenario of a window of 5 s, a threshold of 2 percent and a minimum volume of
  5000: the price goes from 100 to 98 and the accumulated volume is 5000.\<close>

definition demoSettings :: Settings where
  "demoSettings = \<lparr>TimeInterval = 5, PriceChange = 2, MinVolume = 5000\<rparr>"

definition demoDeps :: Deps where
  "demoDeps = \<lparr>GetSettings = Inr demoSettings, IsBlacklisted = (\<lambda>s. Inr False),
               SendAlert = (\<lambda>s pc v t. None)\<rparr>"

definition demoHistory :: "PriceData list" where
  "demoHistory = [\<lparr>PriceData.Price = 100, PriceData.Timestamp = 0\<rparr>,
                  \<lparr>PriceData.Price = 98, PriceData.Timestamp = 5000000000\<rparr>]"

definition demoVolume :: VolumeData where
  "demoVolume = \<lparr>Volume = 5000, Timestamp = 5000000000\<rparr>"

definition demoMonitor :: Monitor where
  "demoMonitor = \<lparr>priceHistory = [''BTCUSDT'' \<mapsto> demoHistory],
                  volumeData = [''BTCUSDT'' \<mapsto> demoVolume]\<rparr>"

text \<open>A sink whose every delivery fails, a store with two symbols that both qualify, and
  a store where only the first of two symbols has enough volume.\<close>

definition lossyDeps :: Deps where
  "lossyDeps = \<lparr>GetSettings = Inr demoSettings, IsBlacklisted = (\<lambda>s. Inr False),
                SendAlert = (\<lambda>s pc v t. Some (Error ''send failed''))\<rparr>"

definition pairMonitor :: Monitor where
  "pairMonitor = \<lparr>priceHistory = [''BTCUSDT'' \<mapsto> demoHistory, ''ETHUSDT'' \<mapsto> demoHistory],
                  volumeData = [''BTCUSDT'' \<mapsto> demoVolume, ''ETHUSDT'' \<mapsto> demoVolume]\<rparr>"

definition mixedMonitor :: Monitor where
  "mixedMonitor = \<lparr>priceHistory = [''BTCUSDT'' \<mapsto> demoHistory, ''ETHUSDT'' \<mapsto> demoHistory],
                   volumeData = [''BTCUSDT'' \<mapsto> demoVolume,
                                 ''ETHUSDT'' \<mapsto> \<lparr>Volume = 4000, Timestamp = 5000000000\<rparr>]\<rparr>"

text \<open>A store whose first sample and whose accumulator are exactly ten minutes old at
  \<open>now = 600000000000\<close>.\<close>

definition boundaryMonitor :: Monitor where
  "boundaryMonitor =
     \<lparr>priceHistory = [''BTCUSDT'' \<mapsto> [\<lparr>PriceData.Price = 100, PriceData.Timestamp = 0\<rparr>,
                                       \<lparr>PriceData.Price = 101, PriceData.Timestamp = 1\<rparr>]],
      volumeData = [''BTCUSDT'' \<mapsto> \<lparr>Volume = 7, Timestamp = 0\<rparr>]\<rparr>"

text \<open>A parser that knows three texts, a fetched list of trades whose second quantity does
  not parse, and a REST client that returns it for every symbol.\<close>

definition demoParse :: "string \<Rightarrow> real option" where
  "demoParse s = (if s = ''10'' then Some 10 else if s = ''2.55'' then Some (255 / 100) else None)"

definition demoTrades :: "TradeResponse list" where
  "demoTrades =
     [\<lparr>TradeResponse.Symbol = ''BTCUSDT'', TradeResponse.Price = ''10'', Qty = ''2.55'',
       Time = 1, IsBuyerMaker = False\<rparr>,
      \<lparr>TradeResponse.Symbol = ''BTCUSDT'', TradeResponse.Price = ''10'', Qty = ''n/a'',
       Time = 2, IsBuyerMaker = True\<rparr>]"

definition demoRest :: RESTClient where
  "demoRest = \<lparr>GetAllTickers = Inr [], GetRecentTrades = (\<lambda>s. Inr demoTrades)\<rparr>"

definition emptyMonitor :: Monitor where
  "emptyMonitor = \<lparr>priceHistory = Map.empty, volumeData = Map.empty\<rparr>"

text \<open>A connected client on a network where every read fails and no further dial
  succeeds.\<close>

definition connectedClient :: Client where
  "connectedClient = \<lparr>conn = Some 0, ctxDone = False, dials = 1, reads = 0, events = []\<rparr>"

definition downNetwork :: Network where
  "downNetwork = \<lparr>dialOk = (\<lambda>i. i = 0), readOk = (\<lambda>i. False)\<rparr>"

section \<open>The analysis pass never panics and alerts exactly where \<open>fires\<close> holds\<close>

text \<open>For a window between 0 and 9223372036 seconds the duration does not wrap, and the
  cutoff is \<open>now\<close> minus the window.\<close>

lemma cutoffTimeOf_in_range:
  assumes "0 \<le> sint ti" and "sint ti \<le> 9223372036"
  shows "cutoffTimeOf now ti = now - sint ti * 1000000000"
proof -
  have "sint (ti * 1000000000) = signed_take_bit 63 (sint ti * sint (1000000000 :: 64 word))"
    by (simp add: sint_word_ariths)
  also have "\<dots> = signed_take_bit 63 (sint ti * 1000000000)"
    by simp
  also have "\<dots> = sint ti * 1000000000"
    using assms by (intro signed_take_bit_int_eq_self) auto
  finally have p: "sint (ti * 1000000000) = sint ti * 1000000000" .
  have "sint (- (ti * 1000000000)) = signed_take_bit 63 (- sint (ti * 1000000000))"
    by (simp add: sint_word_ariths)
  also have "\<dots> = - (sint ti * 1000000000)"
    unfolding p using assms by (intro signed_take_bit_int_eq_self) auto
  finally show ?thesis by (simp add: cutoffTimeOf_def)
qed

lemma index_in_range: "0 \<le> i \<Longrightarrow> i < int (length xs) \<Longrightarrow> index xs i = Inr (xs ! nat i)"
  by (simp add: index_def)

lemma index_last: "h \<noteq> [] \<Longrightarrow> index h (int (length h) - 1) = Inr (last h)"
  by (simp add: index_def last_conv_nth nat_diff_distrib')

lemma scanBack_find:
  "i < int (length h) \<Longrightarrow>
   scanBack h t i =
     Inr (map_option PriceData.Price
            (find (\<lambda>p. PriceData.Timestamp p \<le> t) (rev (take (nat (i + 1)) h))))"
proof (induction h t i rule: scanBack.induct)
  case (1 history targetTime i)
  show ?case
  proof (cases "i \<ge> 0")
    case False
    then show ?thesis by (simp add: scanBack.simps)
  next
    case True
    with 1 have ix: "index history i = Inr (history ! nat i)"
      by (simp add: index_in_range)
    have tk: "take (nat (i + 1)) history = take (nat i) history @ [history ! nat i]"
      using True 1(2) by (simp add: nat_add_distrib take_Suc_conv_app_nth)
    show ?thesis
    proof (cases "PriceData.Timestamp (history ! nat i) \<le> targetTime")
      case t: True
      then show ?thesis using True ix tk
        by (subst scanBack.simps) auto
    next
      case f: False
      have "scanBack history targetTime (i - 1) =
        Inr (map_option PriceData.Price
               (find (\<lambda>p. PriceData.Timestamp p \<le> targetTime)
                  (rev (take (nat (i - 1 + 1)) history))))"
        using 1(1)[OF True ix] f 1(2) by auto
      then show ?thesis using True ix tk f
        by (subst scanBack.simps) auto
    qed
  qed
qed

lemma startPrice_eq: "startPrice h t = Inr (startOf h t)"
proof -
  have "scanBack h t (int (length h) - 1) =
     Inr (map_option PriceData.Price (find (\<lambda>p. PriceData.Timestamp p \<le> t) (rev h)))"
    using scanBack_find[of "int (length h) - 1" h t] by simp
  then show ?thesis
    by (cases h) (auto simp: startPrice_def startOf_def index_def split: option.splits)
qed

lemma priceChangeOf_eq: "priceChangeOf c s = Inr (percentOf c s)"
  by (simp add: priceChangeOf_def percentOf_def fdiv_def)

lemma analyzeSymbol_eq:
  "analyzeSymbol d settings now symb (m, out) =
     Inr (if fires d settings now m symb
          then (m\<lparr>volumeData := (volumeData m)(symb := None)\<rparr>,
                out @ [callOf d settings now m symb])
          else (m, out))"
proof (cases "priceHistory m symb")
  case None
  then show ?thesis by (simp add: analyzeSymbol_def fires_def)
next
  case (Some history)
  show ?thesis
  proof (cases "history = []")
    case True
    with Some show ?thesis by (simp add: analyzeSymbol_def fires_def)
  next
    case False
    note ne = False
    show ?thesis
    proof (cases "volumeData m symb")
      case None
      with Some ne show ?thesis
        by (auto simp: analyzeSymbol_def fires_def index_last Let_def
            split: sum.splits bool.splits)
    next
      case vd: (Some volData)
      with Some ne show ?thesis
        by (auto simp: analyzeSymbol_def fires_def index_last Let_def callOf_def changeAt_def
            startPrice_eq priceChangeOf_eq split: sum.splits bool.splits)
    qed
  qed
qed

lemma fires_cong:
  "priceHistory m' s = priceHistory m s \<Longrightarrow> volumeData m' s = volumeData m s \<Longrightarrow>
   fires d settings now m' s = fires d settings now m s"
  by (simp add: fires_def split: option.splits)

lemma callOf_cong:
  "priceHistory m' s = priceHistory m s \<Longrightarrow> volumeData m' s = volumeData m s \<Longrightarrow>
   callOf d settings now m' s = callOf d settings now m s"
  by (simp add: callOf_def)

lemma analyzeLoop_eq:
  "distinct ks \<Longrightarrow>
   analyzeLoop d settings now ks (m, out) =
     Inr (m\<lparr>volumeData := (\<lambda>s. if s \<in> set ks \<and> fires d settings now m s then None
                                 else volumeData m s)\<rparr>,
          out @ map (callOf d settings now m) (filter (fires d settings now m) ks))"
proof (induction ks arbitrary: m out)
  case Nil
  then show ?case by simp
next
  case (Cons k ks)
  then have k: "k \<notin> set ks" and d: "distinct ks" by simp_all
  show ?case
  proof (cases "fires d settings now m k")
    case False
    then have "(\<lambda>s. if s \<in> set (k # ks) \<and> fires d settings now m s then None
                 else volumeData m s) =
          (\<lambda>s. if s \<in> set ks \<and> fires d settings now m s then None else volumeData m s)"
      by (auto simp: fun_eq_iff)
    with False show ?thesis
      using Cons.IH[OF d, of m out] by (simp add: analyzeSymbol_eq)
  next
    case True
    define m' where "m' = m\<lparr>volumeData := (volumeData m)(k := None)\<rparr>"
    have same: "\<And>s. s \<in> set ks \<Longrightarrow> fires d settings now m' s = fires d settings now m s"
      "\<And>s. s \<in> set ks \<Longrightarrow> callOf d settings now m' s = callOf d settings now m s"
      using k by (auto simp: m'_def intro!: fires_cong callOf_cong)
    have f: "filter (fires d settings now m') ks = filter (fires d settings now m) ks"
      using same(1) by (auto intro: filter_cong)
    have c: "map (callOf d settings now m') (filter (fires d settings now m) ks) =
             map (callOf d settings now m) (filter (fires d settings now m) ks)"
      using same(2) by (auto intro: map_cong)
    have v: "m'\<lparr>volumeData := (\<lambda>s. if s \<in> set ks \<and> fires d settings now m' s then None
                                 else volumeData m' s)\<rparr> =
             m\<lparr>volumeData := (\<lambda>s. if s \<in> set (k # ks) \<and> fires d settings now m s then None
                                 else volumeData m s)\<rparr>"
    proof -
      have vm: "volumeData m' = (volumeData m)(k := None)" by (simp add: m'_def)
      have fe: "(\<lambda>s. if s \<in> set ks \<and> fires d settings now m' s then None else volumeData m' s) =
          (\<lambda>s. if s \<in> set (k # ks) \<and> fires d settings now m s then None else volumeData m s)"
      proof (rule ext)
        fix s
        show "(if s \<in> set ks \<and> fires d settings now m' s then None else volumeData m' s) =
          (if s \<in> set (k # ks) \<and> fires d settings now m s then None else volumeData m s)"
          using same(1)[of s] True k by (cases "s = k") (auto simp: vm)
      qed
      have "\<And>F. m'\<lparr>volumeData := F\<rparr> = m\<lparr>volumeData := F\<rparr>" by (simp add: m'_def)
      then show ?thesis by (simp only: fe)
    qed
    have "analyzeLoop d settings now (k # ks) (m, out) =
          analyzeLoop d settings now ks (m', out @ [callOf d settings now m k])"
      using True by (simp add: analyzeSymbol_eq m'_def)
    also have "\<dots> = Inr (m'\<lparr>volumeData := (\<lambda>s. if s \<in> set ks \<and> fires d settings now m' s then None
                                 else volumeData m' s)\<rparr>,
          (out @ [callOf d settings now m k]) @
            map (callOf d settings now m') (filter (fires d settings now m') ks))"
      by (rule Cons.IH[OF d])
    finally show ?thesis using True by (simp add: f c v)
  qed
qed

lemma alertSymbol_callOf: "alertSymbol (fst (callOf d settings now m s)) = s"
  by (simp add: callOf_def Let_def)

lemma alerted_calls:
  "alerted (map (callOf d settings now m) (filter (fires d settings now m) ks)) =
     {s \<in> set ks. fires d settings now m s}"
  by (auto simp: alerted_def alertSymbol_callOf image_iff)

lemma analyzeData_eq:
  assumes "distinct ks" and "GetSettings d = Inr settings"
  shows "analyzeData d now ks m =
     Inr (m\<lparr>volumeData := (\<lambda>s. if s \<in> set ks \<and> fires d settings now m s then None
                                 else volumeData m s)\<rparr>,
          map (callOf d settings now m) (filter (fires d settings now m) ks))"
  using assms by (simp add: analyzeData_def analyzeLoop_eq)

lemma alerted_Nil: "alerted [] = {}"
  by (simp add: alerted_def)

lemma analyzeData_alerted:
  assumes "distinct ks" and "analyzeData d now ks m = Inr (m', out)"
  shows "s \<in> alerted out \<longleftrightarrow>
    (case GetSettings d of Inl e \<Rightarrow> False
     | Inr settings \<Rightarrow> s \<in> set ks \<and> fires d settings now m s)"
proof (cases "GetSettings d")
  case (Inl e)
  with assms(2) show ?thesis by (simp add: analyzeData_def alerted_Nil)
next
  case (Inr settings)
  from assms(2) have "out = map (callOf d settings now m) (filter (fires d settings now m) ks)"
    by (simp add: analyzeData_eq[OF assms(1) Inr])
  with Inr show ?thesis by (simp add: alerted_calls)
qed

lemma analyzeData_store:
  assumes "distinct ks" and "analyzeData d now ks m = Inr (m', out)"
  shows "m' = m\<lparr>volumeData := (\<lambda>s. if s \<in> alerted out then None else volumeData m s)\<rparr>"
proof (cases "GetSettings d")
  case (Inl e)
  with assms(2) show ?thesis by (auto simp: analyzeData_def alerted_Nil)
next
  case (Inr settings)
  have a: "\<And>s. s \<in> alerted out \<longleftrightarrow> s \<in> set ks \<and> fires d settings now m s"
    using analyzeData_alerted[OF assms] Inr by simp
  from assms(2) have "m' = m\<lparr>volumeData := (\<lambda>s. if s \<in> set ks \<and> fires d settings now m s then None
                                 else volumeData m s)\<rparr>"
    by (simp add: analyzeData_eq[OF assms(1) Inr])
  then show ?thesis by (simp only: a)
qed

lemma analyzeData_total: "distinct ks \<Longrightarrow> \<exists>m' out. analyzeData d now ks m = Inr (m', out)"
  by (cases "GetSettings d") (simp_all add: analyzeData_def analyzeLoop_eq)

lemma cutoff_demo: "cutoffTimeOf 5000000000 5 = 0"
  by (simp add: cutoffTimeOf_def)

lemma startPrice_demo: "startPrice demoHistory 0 = Inr 100"
  by (simp add: startPrice_eq startOf_def demoHistory_def)

lemma priceChange_demo: "priceChangeOf 98 100 = Inr (- 2)"
  by (simp add: priceChangeOf_def fdiv_def)

lemma analyze_demo:
  "analyzeData demoDeps 5000000000 [''BTCUSDT''] demoMonitor =
     Inr (demoMonitor\<lparr>volumeData := (\<lambda>s. if s \<in> set [''BTCUSDT''] \<and>
                fires demoDeps demoSettings 5000000000 demoMonitor s then None
              else volumeData demoMonitor s)\<rparr>,
          map (callOf demoDeps demoSettings 5000000000 demoMonitor)
            (filter (fires demoDeps demoSettings 5000000000 demoMonitor) [''BTCUSDT'']))"
  by (rule analyzeData_eq) (simp_all add: demoDeps_def)

lemma changeAt_demo: "changeAt demoSettings 5000000000 demoHistory = - 2"
  by (simp add: changeAt_def demoSettings_def cutoff_demo startOf_def percentOf_def demoHistory_def)

lemma fires_demo: "fires demoDeps demoSettings 5000000000 demoMonitor ''BTCUSDT''"
  by (simp add: fires_def demoMonitor_def changeAt_demo)
     (simp add: demoSettings_def demoDeps_def cutoff_demo demoHistory_def demoVolume_def)

section \<open>The threshold check\<close>

text \<open>
  C1. For a symbol that reaches the threshold check of a pass (a non-empty history whose
  latest sample is not before the cutoff, not blacklisted, a volume accumulator not
  before the cutoff), the pass returns normally and calls \<^verbatim>\<open>SendAlert\<close> for the symbol
  if and only if the accumulated volume is at least \<open>MinVolume\<close> and the absolute value
  of the percent change is at least \<open>PriceChange\<close>, both inclusive. The witness is the
  move from 100 to 98: a change of \<open>-2\<close> against a threshold of \<open>2\<close>, with the volume
  equal to the minimum.
\<close>

theorem alert_iff_thresholds:
  assumes "distinct keys" and "symb \<in> set keys"
    and "GetSettings d = Inr settings"
    and "priceHistory m symb = Some history" and "history \<noteq> []"
    and "\<not> PriceData.Timestamp (last history) < cutoffTimeOf now (TimeInterval settings)"
    and "IsBlacklisted d symb = Inr False"
    and "volumeData m symb = Some volData"
    and "\<not> VolumeData.Timestamp volData < cutoffTimeOf now (TimeInterval settings)"
    and "startPrice history (cutoffTimeOf now (TimeInterval settings)) = Inr sp"
    and "priceChangeOf (PriceData.Price (last history)) sp = Inr pc"
  shows "\<exists>m' out. analyzeData d now keys m = Inr (m', out) \<and>
           (symb \<in> alerted out \<longleftrightarrow>
              sint (MinVolume settings) \<le> sint (Volume volData) \<and> PriceChange settings \<le> \<bar>pc\<bar>)"
proof -
  have pc: "pc = changeAt settings now history"
    using assms(10,11) by (simp add: startPrice_eq priceChangeOf_eq changeAt_def)
  have "fires d settings now m symb \<longleftrightarrow>
          sint (MinVolume settings) \<le> sint (Volume volData) \<and> PriceChange settings \<le> \<bar>pc\<bar>"
    using assms(4-9) by (auto simp: fires_def pc)
  then show ?thesis
    using assms(1-3) by (simp add: analyzeData_eq alerted_calls)
qed

theorem alert_iff_thresholds_witness:
  "\<exists>m' out. analyzeData demoDeps 5000000000 [''BTCUSDT''] demoMonitor = Inr (m', out) \<and>
      ''BTCUSDT'' \<in> alerted out"
proof -
  have h: "distinct [''BTCUSDT'']" "''BTCUSDT'' \<in> set [''BTCUSDT'']"
    "GetSettings demoDeps = Inr demoSettings"
    "priceHistory demoMonitor ''BTCUSDT'' = Some demoHistory" "demoHistory \<noteq> []"
    "\<not> PriceData.Timestamp (last demoHistory)
        < cutoffTimeOf 5000000000 (TimeInterval demoSettings)"
    "IsBlacklisted demoDeps ''BTCUSDT'' = Inr False"
    "volumeData demoMonitor ''BTCUSDT'' = Some demoVolume"
    "\<not> VolumeData.Timestamp demoVolume < cutoffTimeOf 5000000000 (TimeInterval demoSettings)"
    "priceChangeOf (PriceData.Price (last demoHistory)) 100 = Inr (- 2)"
    by (simp_all add: demoDeps_def demoSettings_def demoMonitor_def cutoff_demo
        priceChange_demo demoHistory_def demoVolume_def)
  have s: "startPrice demoHistory (cutoffTimeOf 5000000000 (TimeInterval demoSettings)) = Inr 100"
    by (simp add: demoSettings_def cutoff_demo startPrice_demo)
  show ?thesis
    using alert_iff_thresholds [OF h(1-9) s h(10)] by (simp add: demoSettings_def demoVolume_def)
qed

section \<open>Preconditions of an alert and the frame of a pass\<close>

text \<open>
  C3. A pass calls \<^verbatim>\<open>SendAlert\<close> for a symbol only if the settings were read, the
  symbol has a non-empty price history whose latest sample is not before the cutoff
  \<open>cutoffTimeOf now (TimeInterval settings)\<close>, the blacklist query answered "not
  blacklisted" without error, and the symbol has a volume accumulator whose timestamp is
  not before the cutoff. So a symbol without an accumulator, or a blacklisted one,
  never alerts.
\<close>

theorem alert_only_if_eligible:
  assumes "distinct keys" and "analyzeData d now keys m = Inr (m', out)"
    and "symb \<in> alerted out"
  shows "\<exists>settings history volData.
           GetSettings d = Inr settings \<and>
           priceHistory m symb = Some history \<and> history \<noteq> [] \<and>
           \<not> PriceData.Timestamp (last history) < cutoffTimeOf now (TimeInterval settings) \<and>
           IsBlacklisted d symb = Inr False \<and>
           volumeData m symb = Some volData \<and>
           \<not> VolumeData.Timestamp volData < cutoffTimeOf now (TimeInterval settings)"
proof -
  from analyzeData_alerted[OF assms(1,2), of symb] assms(3)
  obtain settings where s: "GetSettings d = Inr settings" and f: "fires d settings now m symb"
    by (auto split: sum.splits)
  from f obtain history volData where "priceHistory m symb = Some history" "history \<noteq> []"
      "\<not> PriceData.Timestamp (last history) < cutoffTimeOf now (TimeInterval settings)"
      "IsBlacklisted d symb = Inr False" "volumeData m symb = Some volData"
      "\<not> VolumeData.Timestamp volData < cutoffTimeOf now (TimeInterval settings)"
    by (auto simp: fires_def split: option.splits)
  with s show ?thesis by blast
qed

theorem alert_only_if_eligible_witness:
  "\<exists>settings history volData.
     GetSettings demoDeps = Inr settings \<and>
     priceHistory demoMonitor ''BTCUSDT'' = Some history \<and> history \<noteq> [] \<and>
     \<not> PriceData.Timestamp (last history) < cutoffTimeOf 5000000000 (TimeInterval settings) \<and>
     IsBlacklisted demoDeps ''BTCUSDT'' = Inr False \<and>
     volumeData demoMonitor ''BTCUSDT'' = Some volData \<and>
     \<not> VolumeData.Timestamp volData < cutoffTimeOf 5000000000 (TimeInterval settings)"
proof -
  have a: "''BTCUSDT'' \<in> alerted (map (callOf demoDeps demoSettings 5000000000 demoMonitor)
            (filter (fires demoDeps demoSettings 5000000000 demoMonitor) [''BTCUSDT'']))"
    by (simp only: alerted_calls) (simp add: fires_demo)
  show ?thesis
    by (rule alert_only_if_eligible [OF _ analyze_demo a]) simp
qed


text \<open>
  C10. A pass leaves the price histories as they are; the store after the pass is the
  store before it with the volume accumulators of exactly the alerted symbols removed,
  so a symbol that did not alert keeps its history and its accumulator unchanged.
\<close>

theorem analysis_frame:
  assumes "distinct keys" and "analyzeData d now keys m = Inr (m', out)"
  shows "priceHistory m' = priceHistory m \<and>
         m' = m\<lparr>volumeData := (\<lambda>s. if s \<in> alerted out then None else volumeData m s)\<rparr> \<and>
         (\<forall>s. s \<notin> alerted out \<longrightarrow>
              priceHistory m' s = priceHistory m s \<and> volumeData m' s = volumeData m s)"
proof -
  have e: "m' = m\<lparr>volumeData := (\<lambda>s. if s \<in> alerted out then None else volumeData m s)\<rparr>"
    by (rule analyzeData_store[OF assms])
  have p: "priceHistory m' = priceHistory m"
    by (subst e) simp
  have v: "\<And>s. s \<notin> alerted out \<Longrightarrow> volumeData m' s = volumeData m s"
    by (subst e) simp
  from e p v show ?thesis by simp
qed


lemma fires_mixed:
  "fires demoDeps demoSettings 5000000000 mixedMonitor ''BTCUSDT''"
  "\<not> fires demoDeps demoSettings 5000000000 mixedMonitor ''ETHUSDT''"
  by (simp_all add: fires_def mixedMonitor_def changeAt_demo)
     (simp_all add: demoSettings_def demoDeps_def cutoff_demo demoHistory_def demoVolume_def)

lemma analyze_mixed:
  "analyzeData demoDeps 5000000000 [''BTCUSDT'', ''ETHUSDT''] mixedMonitor =
     Inr (mixedMonitor\<lparr>volumeData := (\<lambda>s. if s \<in> set [''BTCUSDT'', ''ETHUSDT''] \<and>
                fires demoDeps demoSettings 5000000000 mixedMonitor s then None
              else volumeData mixedMonitor s)\<rparr>,
          map (callOf demoDeps demoSettings 5000000000 mixedMonitor)
            (filter (fires demoDeps demoSettings 5000000000 mixedMonitor) [''BTCUSDT'', ''ETHUSDT'']))"
  by (rule analyzeData_eq) (simp_all add: demoDeps_def)

theorem analysis_frame_witness:
  "\<exists>m' out. analyzeData demoDeps 5000000000 [''BTCUSDT'', ''ETHUSDT''] mixedMonitor = Inr (m', out) \<and>
     alerted out = {''BTCUSDT''} \<and>
     priceHistory m' = priceHistory mixedMonitor \<and>
     volumeData m' ''BTCUSDT'' = None \<and>
     volumeData m' ''ETHUSDT'' = Some \<lparr>Volume = 4000, Timestamp = 5000000000\<rparr>"
proof -
  have a: "alerted (map (callOf demoDeps demoSettings 5000000000 mixedMonitor)
            (filter (fires demoDeps demoSettings 5000000000 mixedMonitor)
               [''BTCUSDT'', ''ETHUSDT''])) = {''BTCUSDT''}"
    by (simp only: alerted_calls) (auto simp: fires_mixed)
  have d: "distinct [''BTCUSDT'', ''ETHUSDT'']" by simp
  show ?thesis
    using analysis_frame [OF d analyze_mixed] a analyze_mixed
    by (simp add: fires_mixed) (simp add: mixedMonitor_def)
qed

section \<open>Fire and clear\<close>

lemma fires_SendAlert: "fires (d\<lparr>SendAlert := f\<rparr>) settings now m s = fires d settings now m s"
  by (simp add: fires_def split: option.splits)

lemma callOf_SendAlert:
  "callOf (d\<lparr>SendAlert := f\<rparr>) settings now m s =
     (fst (callOf d settings now m s),
      f (alertSymbol (fst (callOf d settings now m s))) (alertChange (fst (callOf d settings now m s)))
        (alertVolume (fst (callOf d settings now m s))) (alertTime (fst (callOf d settings now m s))))"
  by (simp add: callOf_def Let_def)

lemma fires_volume: "fires d settings now m s \<Longrightarrow> volumeData m s \<noteq> None"
  by (auto simp: fires_def split: option.splits)

text \<open>
  C2. After a pass, every symbol for which \<^verbatim>\<open>SendAlert\<close> was called has no volume
  accumulator, whatever the call returned: the resulting store and the sequence of
  calls are the same for every behaviour \<open>f\<close> of the sink, so a failed delivery stops
  nothing. A following pass over the resulting store, with any settings and clock,
  does not alert for any of these symbols.
\<close>

theorem fire_and_clear:
  assumes "distinct keys" and "analyzeData d now keys m = Inr (m1, out1)"
  shows "(\<forall>s \<in> alerted out1. volumeData m1 s = None) \<and>
         (\<forall>f. analyzeData (d\<lparr>SendAlert := f\<rparr>) now keys m =
                Inr (m1, map (\<lambda>c. (fst c, f (alertSymbol (fst c)) (alertChange (fst c))
                                          (alertVolume (fst c)) (alertTime (fst c)))) out1)) \<and>
         (\<forall>d2 now2 keys2 m2 out2.
            distinct keys2 \<longrightarrow> analyzeData d2 now2 keys2 m1 = Inr (m2, out2) \<longrightarrow>
            alerted out1 \<inter> alerted out2 = {})"
proof (intro conjI allI impI ballI)
  fix s assume "s \<in> alerted out1"
  then show "volumeData m1 s = None"
    by (subst analyzeData_store[OF assms]) simp
next
  fix f
  show "analyzeData (d\<lparr>SendAlert := f\<rparr>) now keys m =
          Inr (m1, map (\<lambda>c. (fst c, f (alertSymbol (fst c)) (alertChange (fst c))
                                    (alertVolume (fst c)) (alertTime (fst c)))) out1)"
  proof (cases "GetSettings d")
    case (Inl e)
    with assms(2) show ?thesis by (auto simp: analyzeData_def)
  next
    case (Inr settings)
    then have g: "GetSettings (d\<lparr>SendAlert := f\<rparr>) = Inr settings" by simp
    from assms(2) have m1: "m1 = m\<lparr>volumeData := (\<lambda>s. if s \<in> set keys \<and> fires d settings now m s
                                 then None else volumeData m s)\<rparr>"
      and o1: "out1 = map (callOf d settings now m) (filter (fires d settings now m) keys)"
      by (simp_all add: analyzeData_eq[OF assms(1) Inr])
    have ff: "fires (d\<lparr>SendAlert := f\<rparr>) settings now m = fires d settings now m"
      by (rule ext) (rule fires_SendAlert)
    have cc: "map (callOf (d\<lparr>SendAlert := f\<rparr>) settings now m) (filter (fires d settings now m) keys) =
        map (\<lambda>c. (fst c, f (alertSymbol (fst c)) (alertChange (fst c))
                                    (alertVolume (fst c)) (alertTime (fst c))))
          (map (callOf d settings now m) (filter (fires d settings now m) keys))"
      unfolding map_map by (rule map_cong) (simp_all add: callOf_SendAlert)
    show ?thesis
      unfolding analyzeData_eq[OF assms(1) g] ff m1 o1 cc ..
  qed
next
  fix d2 now2 keys2 m2 out2
  assume k2: "distinct keys2" and a2: "analyzeData d2 now2 keys2 m1 = Inr (m2, out2)"
  show "alerted out1 \<inter> alerted out2 = {}"
  proof (rule ccontr)
    assume "alerted out1 \<inter> alerted out2 \<noteq> {}"
    then obtain s where s1: "s \<in> alerted out1" and s2: "s \<in> alerted out2" by blast
    from s1 have "volumeData m1 s = None"
      by (subst analyzeData_store[OF assms]) simp
    moreover from analyzeData_alerted[OF k2 a2, of s] s2
    obtain settings2 where "fires d2 settings2 now2 m1 s"
      by (auto split: sum.splits)
    ultimately show False using fires_volume by blast
  qed
qed

lemma fires_pair:
  "fires lossyDeps demoSettings 5000000000 pairMonitor ''BTCUSDT''"
  "fires lossyDeps demoSettings 5000000000 pairMonitor ''ETHUSDT''"
  by (simp_all add: fires_def pairMonitor_def changeAt_demo)
     (simp_all add: demoSettings_def lossyDeps_def cutoff_demo demoHistory_def demoVolume_def)

lemma analyze_pair:
  "analyzeData lossyDeps 5000000000 [''BTCUSDT'', ''ETHUSDT''] pairMonitor =
     Inr (pairMonitor\<lparr>volumeData := (\<lambda>s. if s \<in> set [''BTCUSDT'', ''ETHUSDT''] \<and>
                fires lossyDeps demoSettings 5000000000 pairMonitor s then None
              else volumeData pairMonitor s)\<rparr>,
          map (callOf lossyDeps demoSettings 5000000000 pairMonitor)
            (filter (fires lossyDeps demoSettings 5000000000 pairMonitor) [''BTCUSDT'', ''ETHUSDT'']))"
  by (rule analyzeData_eq) (simp_all add: lossyDeps_def)

theorem fire_and_clear_witness:
  "\<exists>m1 out1. analyzeData lossyDeps 5000000000 [''BTCUSDT'', ''ETHUSDT''] pairMonitor = Inr (m1, out1) \<and>
     map snd out1 = [Some (Error ''send failed''), Some (Error ''send failed'')] \<and>
     alerted out1 = {''BTCUSDT'', ''ETHUSDT''} \<and>
     volumeData m1 ''BTCUSDT'' = None \<and> volumeData m1 ''ETHUSDT'' = None"
proof -
  have a: "alerted (map (callOf lossyDeps demoSettings 5000000000 pairMonitor)
            (filter (fires lossyDeps demoSettings 5000000000 pairMonitor)
               [''BTCUSDT'', ''ETHUSDT''])) = {''BTCUSDT'', ''ETHUSDT''}"
    by (simp only: alerted_calls) (auto simp: fires_pair)
  have d: "distinct [''BTCUSDT'', ''ETHUSDT'']" by simp
  have r: "map snd (map (callOf lossyDeps demoSettings 5000000000 pairMonitor)
            (filter (fires lossyDeps demoSettings 5000000000 pairMonitor)
               [''BTCUSDT'', ''ETHUSDT''])) = [Some (Error ''send failed''), Some (Error ''send failed'')]"
    by (simp add: fires_pair) (simp add: callOf_def Let_def lossyDeps_def)
  from fire_and_clear [OF d analyze_pair] a
  have "volumeData (pairMonitor\<lparr>volumeData := (\<lambda>s. if s \<in> set [''BTCUSDT'', ''ETHUSDT''] \<and>
                fires lossyDeps demoSettings 5000000000 pairMonitor s then None
              else volumeData pairMonitor s)\<rparr>) ''BTCUSDT'' = None"
     "volumeData (pairMonitor\<lparr>volumeData := (\<lambda>s. if s \<in> set [''BTCUSDT'', ''ETHUSDT''] \<and>
                fires lossyDeps demoSettings 5000000000 pairMonitor s then None
              else volumeData pairMonitor s)\<rparr>) ''ETHUSDT'' = None"
    by blast+
  with a r analyze_pair show ?thesis
    by (intro exI conjI) assumption+
qed

section \<open>The start price and the percent change\<close>

text \<open>
  C4. On a non-empty history the start-price lookup returns normally: the price of the
  first sample, going from the latest sample backwards, whose timestamp is at or before
  the target time, and the price of the oldest sample when there is none. The result
  is the price of a sample of the history.
\<close>

theorem startPrice_lookup:
  assumes "history \<noteq> []"
  shows "startPrice history targetTime =
           Inr (case find (\<lambda>p. PriceData.Timestamp p \<le> targetTime) (rev history) of
                  Some p \<Rightarrow> PriceData.Price p
                | None \<Rightarrow> PriceData.Price (hd history)) \<and>
         (\<exists>p \<in> set history. startPrice history targetTime = Inr (PriceData.Price p))"
proof -
  have e: "startPrice history targetTime =
           Inr (case find (\<lambda>p. PriceData.Timestamp p \<le> targetTime) (rev history) of
                  Some p \<Rightarrow> PriceData.Price p
                | None \<Rightarrow> PriceData.Price (hd history))"
    using assms by (simp add: startPrice_eq startOf_def)
  have "\<exists>p \<in> set history. startPrice history targetTime = Inr (PriceData.Price p)"
  proof (cases "find (\<lambda>p. PriceData.Timestamp p \<le> targetTime) (rev history)")
    case None
    with e assms show ?thesis by (auto intro: bexI[of _ "hd history"])
  next
    case (Some p)
    then obtain i where "i < length (rev history)" and "rev history ! i = p"
      unfolding find_Some_iff by blast
    then have "p \<in> set (rev history)"
      using nth_mem by blast
    then have "p \<in> set history" by simp
    with e Some show ?thesis by auto
  qed
  with e show ?thesis by blast
qed

theorem startPrice_lookup_witness:
  "startPrice demoHistory (- 1) = Inr 100 \<and> startPrice demoHistory 6000000000 = Inr 98"
proof -
  have n: "demoHistory \<noteq> []" by (simp add: demoHistory_def)
  show ?thesis
    using startPrice_lookup [OF n, of "- 1"] startPrice_lookup [OF n, of 6000000000]
    by (simp add: demoHistory_def)
qed

text \<open>
  C5. The percent change is \<open>(currentPrice - sp) / sp * 100\<close> when the start price is
  positive and \<open>0\<close> otherwise; the division is never reached with a zero divisor.
\<close>

theorem priceChange_guarded:
  "priceChangeOf currentPrice sp =
     Inr (if sp > 0 then (currentPrice - sp) / sp * 100 else 0)"
  by (simp add: priceChangeOf_def fdiv_def)

theorem priceChange_guarded_witness:
  "priceChangeOf 98 100 = Inr (- 2) \<and> priceChangeOf 5 0 = Inr 0 \<and> priceChangeOf 5 (- 1) = Inr 0"
  using priceChange_guarded [of 98 100] priceChange_guarded [of 5 0]
    priceChange_guarded [of 5 "- 1"]
  by simp

section \<open>The pruning pass\<close>

text \<open>The inner loop keeps, in order, the samples strictly after the cutoff.\<close>

lemma pruneHistory_foldl:
  "foldl (\<lambda>newHistory priceData.
            if PriceData.Timestamp priceData > c then newHistory @ [priceData] else newHistory)
     acc h = acc @ filter (\<lambda>p. PriceData.Timestamp p > c) h"
  by (induction h arbitrary: acc) simp_all

lemma pruneHistory_filter: "pruneHistory c h = filter (\<lambda>p. PriceData.Timestamp p > c) h"
  by (simp add: pruneHistory_def pruneHistory_foldl)

lemma pruneHistory_idem: "pruneHistory c (pruneHistory c h) = pruneHistory c h"
  by (simp add: pruneHistory_filter)

lemma cleanupPrices_volume: "volumeData (cleanupPrices c ks m) = volumeData m"
  by (induction ks arbitrary: m) (simp_all split: option.splits)

lemma cleanupPrices_price:
  "priceHistory (cleanupPrices c ks m) s =
     (if s \<in> set ks then map_option (pruneHistory c) (priceHistory m s) else priceHistory m s)"
proof (induction ks arbitrary: m)
  case Nil
  show ?case by simp
next
  case (Cons k ks)
  show ?case
    by (cases "priceHistory m k") (auto simp: Cons.IH pruneHistory_idem)
qed

lemma pruneVolume_None: "pruneVolume c None = None"
  by (simp add: pruneVolume_def)

lemma pruneVolume_idem: "pruneVolume c (pruneVolume c v) = pruneVolume c v"
  by (simp add: pruneVolume_def split: option.splits)

lemma cleanupVolumes_price: "priceHistory (cleanupVolumes c ks m) = priceHistory m"
  by (induction ks arbitrary: m) (simp_all split: option.splits)

lemma cleanupVolumes_volume:
  "volumeData (cleanupVolumes c ks m) s =
     (if s \<in> set ks then pruneVolume c (volumeData m s) else volumeData m s)"
proof (induction ks arbitrary: m)
  case Nil
  show ?case by simp
next
  case (Cons k ks)
  show ?case
    by (cases "volumeData m k") (auto simp: Cons.IH pruneVolume_def)
qed

lemma cleanup_price:
  "priceHistory (cleanup now pkeys vkeys m) s =
     (if s \<in> set pkeys then map_option (pruneHistory (now - 600000000000)) (priceHistory m s)
      else priceHistory m s)"
  by (simp add: cleanup_def Let_def cleanupVolumes_price cleanupPrices_price)

lemma cleanup_volume:
  "volumeData (cleanup now pkeys vkeys m) s =
     (if s \<in> set vkeys then pruneVolume (now - 600000000000) (volumeData m s)
      else volumeData m s)"
  by (simp add: cleanup_def Let_def cleanupVolumes_volume cleanupPrices_volume)

text \<open>
  C8. Pruning twice at the same clock reading gives the same store as pruning once:
  when the first run visits the keys of the two maps, a second run, in whatever order
  and over whatever keys, changes nothing.
\<close>

theorem cleanup_idempotent:
  assumes "set pkeys = dom (priceHistory m)" and "set vkeys = dom (volumeData m)"
  shows "cleanup now pkeys' vkeys' (cleanup now pkeys vkeys m) = cleanup now pkeys vkeys m"
proof (rule Monitor.equality)
  have p: "\<And>s. s \<notin> set pkeys \<Longrightarrow> priceHistory m s = None"
    using assms(1) by auto
  show "priceHistory (cleanup now pkeys' vkeys' (cleanup now pkeys vkeys m)) =
        priceHistory (cleanup now pkeys vkeys m)"
    using p by (auto simp: fun_eq_iff cleanup_price option.map_comp comp_def pruneHistory_idem)
next
  have v: "\<And>s. s \<notin> set vkeys \<Longrightarrow> volumeData m s = None"
    using assms(2) by auto
  show "volumeData (cleanup now pkeys' vkeys' (cleanup now pkeys vkeys m)) =
        volumeData (cleanup now pkeys vkeys m)"
    using v by (auto simp: fun_eq_iff cleanup_volume pruneVolume_idem pruneVolume_None)
qed simp

lemma cleanup_boundary:
  "cleanup 600000000000 [''BTCUSDT''] [''BTCUSDT''] boundaryMonitor =
     \<lparr>priceHistory = [''BTCUSDT'' \<mapsto> [\<lparr>PriceData.Price = 101, PriceData.Timestamp = 1\<rparr>]],
      volumeData = [''BTCUSDT'' \<mapsto> \<lparr>Volume = 7, Timestamp = 0\<rparr>]\<rparr>"
  by (simp add: cleanup_def boundaryMonitor_def pruneHistory_def)

theorem cleanup_idempotent_witness:
  "cleanup 600000000000 [''BTCUSDT''] [''BTCUSDT'']
     (cleanup 600000000000 [''BTCUSDT''] [''BTCUSDT''] boundaryMonitor) =
   \<lparr>priceHistory = [''BTCUSDT'' \<mapsto> [\<lparr>PriceData.Price = 101, PriceData.Timestamp = 1\<rparr>]],
      volumeData = [''BTCUSDT'' \<mapsto> \<lparr>Volume = 7, Timestamp = 0\<rparr>]\<rparr>"
proof -
  have "set [''BTCUSDT''] = dom (priceHistory boundaryMonitor)"
    "set [''BTCUSDT''] = dom (volumeData boundaryMonitor)"
    by (simp_all add: boundaryMonitor_def)
  from cleanup_idempotent [OF this, of 600000000000 "[''BTCUSDT'']" "[''BTCUSDT'']"]
  show ?thesis by (simp only: cleanup_boundary)
qed

text \<open>
  C7. At \<open>now = 600000000000\<close> the cutoff is \<open>0\<close>. The price sample whose timestamp is
  exactly the cutoff is dropped (only the sample at \<open>1\<close> is kept), although it is not
  strictly older than the cutoff; the volume accumulator with the same timestamp is kept.
\<close>

theorem cleanup_drops_boundary_sample:
  "priceHistory (cleanup 600000000000 [''BTCUSDT''] [''BTCUSDT''] boundaryMonitor) ''BTCUSDT'' =
     Some [\<lparr>PriceData.Price = 101, PriceData.Timestamp = 1\<rparr>] \<and>
   volumeData (cleanup 600000000000 [''BTCUSDT''] [''BTCUSDT''] boundaryMonitor) ''BTCUSDT'' =
     Some \<lparr>Volume = 7, Timestamp = 0\<rparr>"
  by (simp add: cleanup_def boundaryMonitor_def pruneHistory_def)

section \<open>The two ingestion paths\<close>

text \<open>Truncation is towards zero on both sides.\<close>

lemma toInt_demo: "toInt (10 * (255 / 100)) = 25" "toInt (- 10 * (255 / 100)) = - 25"
  by (simp_all add: toInt_def)

lemma foldl_plus:
  fixes acc :: "64 word"
  assumes "\<And>a r. f a r = a + g r"
  shows "foldl f acc rs = acc + foldl f 0 rs"
proof (induction rs arbitrary: acc)
  case Nil
  show ?case by simp
next
  case (Cons r rs)
  have "foldl f (acc + g r) rs = (acc + g r) + foldl f 0 rs"
    by (rule Cons.IH)
  moreover have "foldl f (0 + g r) rs = (0 + g r) + foldl f 0 rs"
    by (rule Cons.IH)
  moreover have "f acc r = acc + g r" and "f 0 r = 0 + g r"
    by (rule assms)+
  ultimately show ?case
    unfolding foldl_Cons by (simp only: add.assoc add_0)
qed

lemma totalVolume_Nil: "totalVolume pf [] = 0"
  by (simp add: totalVolume_def)

lemma totalVolume_Cons:
  "totalVolume pf (r # rs) =
     (case pf (TradeResponse.Price r) of
        None \<Rightarrow> totalVolume pf rs
      | Some price \<Rightarrow>
          (case pf (Qty r) of
             None \<Rightarrow> totalVolume pf rs
           | Some qty \<Rightarrow> toInt (price * qty) + totalVolume pf rs))"
proof -
  let ?f = "\<lambda>total trade.
              case pf (TradeResponse.Price trade) of
                None \<Rightarrow> total
              | Some price \<Rightarrow>
                  (case pf (Qty trade) of
                     None \<Rightarrow> total
                   | Some qty \<Rightarrow> total + toInt (price * qty))"
  have f: "\<And>a r. ?f a r = a + notional pf r"
    by (simp add: notional_def split: option.splits)
  have "totalVolume pf (r # rs) = foldl ?f (?f 0 r) rs"
    by (simp add: totalVolume_def)
  also have "\<dots> = ?f 0 r + foldl ?f 0 rs"
    using f by (rule foldl_plus)
  finally show ?thesis
    by (simp add: totalVolume_def split: option.splits)
qed

lemma totalVolume_unparsed: "\<forall>r \<in> set rs. \<not> parses pf r \<Longrightarrow> totalVolume pf rs = 0"
  by (induction rs) (auto simp: totalVolume_Nil totalVolume_Cons parses_def split: option.splits)

lemma pollTickers_volume: "volumeData (pollTickers pf now symbols tickers m) = volumeData m"
  by (induction tickers arbitrary: m) (simp_all add: Let_def split: option.splits)

lemma pollVolumes_volume:
  "volumeData (pollVolumes rest pf now symbols m) s =
     (if s \<in> set symbols
      then (case GetRecentTrades rest s of
              Inl e \<Rightarrow> volumeData m s
            | Inr trades \<Rightarrow> Some \<lparr>Volume = totalVolume pf trades, Timestamp = now\<rparr>)
      else volumeData m s)"
proof (induction symbols arbitrary: m)
  case Nil
  show ?case by simp
next
  case (Cons k ks)
  show ?case
    by (cases "GetRecentTrades rest k") (auto simp: Cons.IH split: sum.splits)
qed

lemma pollPrices_volume:
  assumes "GetAllTickers rest = Inr tickers" and "symb \<in> set symbols"
    and "GetRecentTrades rest symb = Inr trades"
  shows "volumeData (pollPrices rest pf now symbols m) symb =
           Some \<lparr>Volume = totalVolume pf trades, Timestamp = now\<rparr>"
  using assms by (simp add: pollPrices_def pollVolumes_volume)

lemma handleTrades_some:
  "volumeData m symb = Some vd \<Longrightarrow>
   volumeData (handleTrades pf now (map (asTradeData symb) trades) m) symb =
     Some (if \<exists>r \<in> set trades. parses pf r
           then vd\<lparr>Volume := Volume vd + totalVolume pf trades, VolumeData.Timestamp := now\<rparr>
           else vd)"
proof (induction trades arbitrary: m vd)
  case Nil
  then show ?case by simp
next
  case (Cons r rs)
  show ?case
  proof (cases "parses pf r")
    case False
    then have "handleTrade pf now (asTradeData symb r) m = m"
      by (auto simp: handleTrade_def asTradeData_def parses_def split: option.splits)
    moreover have "totalVolume pf (r # rs) = totalVolume pf rs"
      using False by (auto simp: totalVolume_Cons parses_def split: option.splits)
    ultimately show ?thesis using Cons.IH[OF Cons.prems] False by simp
  next
    case True
    then obtain price qty where p: "pf (TradeResponse.Price r) = Some price"
      and q: "pf (Qty r) = Some qty"
      by (auto simp: parses_def)
    let ?vd = "vd\<lparr>Volume := Volume vd + toInt (price * qty), VolumeData.Timestamp := now\<rparr>"
    have v: "volumeData (handleTrade pf now (asTradeData symb r) m) symb = Some ?vd"
      using Cons.prems p q by (simp add: handleTrade_def asTradeData_def Let_def)
    have t: "totalVolume pf (r # rs) = toInt (price * qty) + totalVolume pf rs"
      using p q by (simp add: totalVolume_Cons)
    show ?thesis
      using Cons.IH[OF v] True by (auto simp: t add.assoc totalVolume_unparsed)
  qed
qed

lemma handleTrades_none:
  "volumeData m symb = None \<Longrightarrow>
   volumeData (handleTrades pf now (map (asTradeData symb) trades) m) symb =
     (if \<exists>r \<in> set trades. parses pf r
      then Some \<lparr>Volume = totalVolume pf trades, Timestamp = now\<rparr>
      else None)"
proof (induction trades arbitrary: m)
  case Nil
  then show ?case by simp
next
  case (Cons r rs)
  show ?case
  proof (cases "parses pf r")
    case False
    then have "handleTrade pf now (asTradeData symb r) m = m"
      by (auto simp: handleTrade_def asTradeData_def parses_def split: option.splits)
    moreover have "totalVolume pf (r # rs) = totalVolume pf rs"
      using False by (auto simp: totalVolume_Cons parses_def split: option.splits)
    ultimately show ?thesis using Cons.IH[OF Cons.prems] False by simp
  next
    case True
    then obtain price qty where p: "pf (TradeResponse.Price r) = Some price"
      and q: "pf (Qty r) = Some qty"
      by (auto simp: parses_def)
    let ?vd = "\<lparr>Volume = toInt (price * qty), Timestamp = now\<rparr>"
    have v: "volumeData (handleTrade pf now (asTradeData symb r) m) symb = Some ?vd"
      using Cons.prems p q by (simp add: handleTrade_def asTradeData_def Let_def)
    have t: "totalVolume pf (r # rs) = toInt (price * qty) + totalVolume pf rs"
      using p q by (simp add: totalVolume_Cons)
    show ?thesis
      using handleTrades_some[OF v, of pf now rs] True by (auto simp: t totalVolume_unparsed)
  qed
qed

text \<open>
  C6, as amended. For a tracked symbol without an accumulator and a fetched list of
  trades of which at least one parses, the polling path (when both requests succeed)
  and the trade handler fed with the same trades leave the same accumulator: the sum of
  the truncated notionals of the trades that parse, stamped with the clock reading.
\<close>

theorem polling_matches_stream_on_fresh_symbol:
  assumes "GetAllTickers rest = Inr tickers" and "symb \<in> set symbols"
    and "GetRecentTrades rest symb = Inr trades"
    and "volumeData m symb = None"
    and "\<exists>r \<in> set trades. pf (TradeResponse.Price r) \<noteq> None \<and> pf (Qty r) \<noteq> None"
  shows "volumeData (pollPrices rest pf now symbols m) symb =
           Some \<lparr>Volume = totalVolume pf trades, Timestamp = now\<rparr> \<and>
         volumeData (handleTrades pf now (map (asTradeData symb) trades) m) symb =
           volumeData (pollPrices rest pf now symbols m) symb"
proof -
  have "\<exists>r \<in> set trades. parses pf r"
    using assms(5) by (simp add: parses_def)
  then have "volumeData (handleTrades pf now (map (asTradeData symb) trades) m) symb =
      Some \<lparr>Volume = totalVolume pf trades, Timestamp = now\<rparr>"
    by (simp add: handleTrades_none[OF assms(4)])
  with pollPrices_volume[OF assms(1-3)] show ?thesis by simp
qed

lemma demoParse_values:
  "demoParse ''10'' = Some 10" "demoParse ''2.55'' = Some (255 / 100)" "demoParse ''n/a'' = None"
  by (simp_all add: demoParse_def)

lemma totalVolume_demo: "totalVolume demoParse demoTrades = 25"
  by (simp add: totalVolume_def demoTrades_def demoParse_values toInt_def)

lemma parses_demo: "parses demoParse (hd demoTrades)"
  by (simp add: demoTrades_def parses_def demoParse_values)

theorem polling_matches_stream_on_fresh_symbol_witness:
  "volumeData (pollPrices demoRest demoParse 7 [''BTCUSDT''] emptyMonitor) ''BTCUSDT'' =
     Some \<lparr>Volume = 25, Timestamp = 7\<rparr> \<and>
   volumeData (handleTrades demoParse 7 (map (asTradeData ''BTCUSDT'') demoTrades) emptyMonitor)
     ''BTCUSDT'' = Some \<lparr>Volume = 25, Timestamp = 7\<rparr>"
proof -
  have h: "GetAllTickers demoRest = Inr []" "''BTCUSDT'' \<in> set [''BTCUSDT'']"
    "GetRecentTrades demoRest ''BTCUSDT'' = Inr demoTrades"
    "volumeData emptyMonitor ''BTCUSDT'' = None"
    by (simp_all add: demoRest_def emptyMonitor_def)
  have e: "\<exists>r \<in> set demoTrades. demoParse (TradeResponse.Price r) \<noteq> None \<and> demoParse (Qty r) \<noteq> None"
    using parses_demo by (intro bexI[of _ "hd demoTrades"]) (simp_all add: parses_def demoTrades_def)
  show ?thesis
    using polling_matches_stream_on_fresh_symbol [OF h e, of 7] by (simp add: totalVolume_demo)
qed

text \<open>
  C6, as stated, fails where an accumulator exists: with 5000 accumulated and one
  parsable trade of notional 25, polling replaces the accumulator by 25 and the trade
  handler adds to it.
\<close>

theorem polling_replaces_accumulator:
  "volumeData (pollPrices demoRest demoParse 7 [''BTCUSDT''] demoMonitor) ''BTCUSDT'' =
     Some \<lparr>Volume = 25, Timestamp = 7\<rparr> \<and>
   volumeData (handleTrades demoParse 7 (map (asTradeData ''BTCUSDT'') demoTrades) demoMonitor)
     ''BTCUSDT'' = Some \<lparr>Volume = 5025, Timestamp = 7\<rparr> \<and>
   volumeData (pollPrices demoRest demoParse 7 [''BTCUSDT''] demoMonitor) ''BTCUSDT'' \<noteq>
   volumeData (handleTrades demoParse 7 (map (asTradeData ''BTCUSDT'') demoTrades) demoMonitor)
     ''BTCUSDT''"
proof -
  have p: "volumeData (pollPrices demoRest demoParse 7 [''BTCUSDT''] demoMonitor) ''BTCUSDT'' =
     Some \<lparr>Volume = totalVolume demoParse demoTrades, Timestamp = 7\<rparr>"
    by (rule pollPrices_volume) (simp_all add: demoRest_def)
  have v: "volumeData demoMonitor ''BTCUSDT'' = Some demoVolume"
    by (simp add: demoMonitor_def)
  have e: "\<exists>r \<in> set demoTrades. parses demoParse r"
    using parses_demo by (intro bexI[of _ "hd demoTrades"]) (simp_all add: demoTrades_def)
  show ?thesis
    using p handleTrades_some[OF v, of demoParse 7 demoTrades] e
    by (simp add: totalVolume_demo demoVolume_def)
qed

section \<open>The read loop after a failed reconnect\<close>

lemma readMessages_gives_up:
  assumes "conn c = Some k" and "\<not> ctxDone c" and "\<not> readOk net (reads c)"
    and "\<not> dialOk net (dials c)"
  shows "readMessages (Suc (Suc n)) net c =
           Returned (c\<lparr>conn := None, dials := dials c + 1, reads := reads c + 1,
                      events := events c @ [ReadFailed, ConnClosed, Slept 2, Dialed False, Slept 5]\<rparr>)"
  using assms by (simp add: reconnect_def Connect_def Let_def)

text \<open>
  C9. On a connected client whose read fails and whose next dial fails, the loop makes
  one reconnect attempt, sleeps and returns in its second iteration, because the
  connection handle is \<^verbatim>\<open>nil\<close>: whatever the number of iterations allowed, no second
  attempt is made.
\<close>

theorem read_loop_returns_after_failed_reconnect:
  "\<forall>n. readMessages (Suc (Suc n)) downNetwork connectedClient =
         Returned \<lparr>conn = None, ctxDone = False, dials = 2, reads = 1,
                   events = [ReadFailed, ConnClosed, Slept 2, Dialed False, Slept 5]\<rparr>"
  by (simp add: connectedClient_def downNetwork_def reconnect_def Connect_def Let_def)

end
